theory Spec2Isabelle
  imports Complex_Main "HOL-Library.Multiset" "HOL-Library.Char_ord" "HOL-Library.List_Lexorder"
begin

section \<open>The permutation test of the chronic back pain notebook\<close>

text \<open>
  The notebook \<^verbatim>\<open>DecisionScience-03-Session-ChronicPain\<close> loads a table with
  \<^verbatim>\<open>pd.read_csv\<close>, defines \<^verbatim>\<open>difference_of_means_abs\<close> and
  \<^verbatim>\<open>one_simulated_difference\<close>, collects simulated statistics in a loop and divides a
  count by the number of repetitions. This theory embeds those cells.

  Scope of the embedding.
  \<^item> A data frame is the list of its columns, in order, each a name with its cells. The
    row labels are the default ones of \<^verbatim>\<open>read_csv\<close> (0, 1, ..., n - 1), so that the
    assignment of a column aligns row by row; name lookups take the first column of
    that name.
  \<^item> A cell is a number or a string; there are no missing values. Numbers are real
    numbers: the rounding of 64-bit floats is not modelled.
  \<^item> The random draw of \<^verbatim>\<open>df.sample\<close> is an argument: the order in which the rows come
    out, a list of row positions.
  \<^item> The library calls behave as in the pandas the notebook was written for
    (Python 3.7): \<^verbatim>\<open>mean\<close> of a grouped frame leaves out the columns that are not
    numeric, and an integer subscript of a row with column names as labels is
    positional.
\<close>

subsection \<open>Cells, columns, frames\<close>

datatype cell = Num real | Str string

datatype error = KeyError | IndexError | ValueError | ZeroDivisionError

type_synonym frame = "(string \<times> cell list) list"

text \<open>
  Group keys come out of \<^verbatim>\<open>groupby\<close> sorted: numbers by value, strings by code
  point, numbers before strings.
\<close>

instantiation cell :: linorder
begin

fun less_eq_cell :: "cell \<Rightarrow> cell \<Rightarrow> bool" where
  "less_eq_cell (Num a) (Num b) = (a \<le> b)"
| "less_eq_cell (Num a) (Str t) = True"
| "less_eq_cell (Str s) (Num b) = False"
| "less_eq_cell (Str s) (Str t) = (s \<le> t)"

definition less_cell :: "cell \<Rightarrow> cell \<Rightarrow> bool" where
  "less_cell x y = (x \<le> y \<and> \<not> y \<le> x)"

instance
proof
  fix x y z :: cell
  show "(x < y) = (x \<le> y \<and> \<not> y \<le> x)"
    by (simp add: less_cell_def)
  show "x \<le> x"
    by (cases x) simp_all
  show "x \<le> y \<Longrightarrow> y \<le> z \<Longrightarrow> x \<le> z"
    by (cases x; cases y; cases z) auto
  show "x \<le> y \<Longrightarrow> y \<le> x \<Longrightarrow> x = y"
    by (cases x; cases y) auto
  show "x \<le> y \<or> y \<le> x"
    by (cases x; cases y) auto
qed

end

definition names :: "frame \<Rightarrow> string list" where
  "names df = map fst df"

text \<open>\<^verbatim>\<open>df.shape[0]\<close>: the number of rows.\<close>

definition shape0 :: "frame \<Rightarrow> nat" where
  "shape0 df = (case df of [] \<Rightarrow> 0 | (c, vs) # rest \<Rightarrow> length vs)"

text \<open>\<^verbatim>\<open>df[c]\<close>: the cells of a column; a name that is no column raises KeyError.\<close>

definition getitem :: "frame \<Rightarrow> string \<Rightarrow> error + cell list" where
  "getitem df c = (case map_of df c of None \<Rightarrow> Inl KeyError | Some vs \<Rightarrow> Inr vs)"

text \<open>
  \<^verbatim>\<open>df[c] = vs\<close>: an existing column keeps its place and gets the new cells, a new
  column goes last. In the source this changes the frame object itself.
\<close>

fun setitem :: "frame \<Rightarrow> string \<Rightarrow> cell list \<Rightarrow> frame" where
  "setitem [] c vs = [(c, vs)]"
| "setitem ((c', vs') # rest) c vs =
     (if c' = c then (c, vs) # rest else (c', vs') # setitem rest c vs)"

text \<open>
  \<^verbatim>\<open>df.drop(c, axis=1)\<close>: a new frame without the column; a name that is no column
  raises KeyError.
\<close>

definition drop_column :: "string \<Rightarrow> frame \<Rightarrow> error + frame" where
  "drop_column c df =
     (if c \<in> set (names df) then Inr (filter (\<lambda>(c', vs). c' \<noteq> c) df) else Inl KeyError)"

text \<open>
  \<^verbatim>\<open>df.sample(n=df.shape[0], replace=False)\<close>: all rows, in the drawn order. The result
  keeps the old row labels, which are the drawn positions.
\<close>

definition sample :: "nat list \<Rightarrow> frame \<Rightarrow> nat list \<times> frame" where
  "sample perm df = (perm, map (\<lambda>(c, vs). (c, map (\<lambda>i. vs ! i) perm)) df)"

text \<open>
  \<^verbatim>\<open>.reset_index()\<close>: the old row labels become a first column and the rows are
  labelled 0, 1, ... again. The new column is named \<^verbatim>\<open>index\<close>, or \<^verbatim>\<open>level_0\<close> when the
  frame has a column \<^verbatim>\<open>index\<close> already; inserting a name that the frame has raises
  ValueError.
\<close>

definition reset_index :: "nat list \<times> frame \<Rightarrow> error + frame" where
  "reset_index s =
     (case s of (idx, df) \<Rightarrow>
        (let default = (if ''index'' \<in> set (names df) then ''level_0'' else ''index'')
         in if default \<in> set (names df) then Inl ValueError
            else Inr ((default, map (\<lambda>i. Num (real i)) idx) # df)))"

text \<open>The draw is a rearrangement of the row positions.\<close>

definition is_permutation :: "nat list \<Rightarrow> nat \<Rightarrow> bool" where
  "is_permutation perm n = (mset perm = mset [0..<n])"

subsection \<open>Grouped means\<close>

definition is_num :: "cell \<Rightarrow> bool" where
  "is_num v = (case v of Num r \<Rightarrow> True | Str s \<Rightarrow> False)"

definition is_numeric :: "cell list \<Rightarrow> bool" where
  "is_numeric vs = list_all is_num vs"

definition the_num :: "cell \<Rightarrow> real" where
  "the_num v = (case v of Num r \<Rightarrow> r | Str s \<Rightarrow> 0)"

text \<open>The mean of the cells whose row has the key \<open>k\<close> in the label column.\<close>

definition group_values :: "cell \<Rightarrow> cell list \<Rightarrow> cell list \<Rightarrow> real list" where
  "group_values k labels vs = map (the_num \<circ> snd) (filter (\<lambda>(l, v). l = k) (zip labels vs))"

definition group_mean :: "cell \<Rightarrow> cell list \<Rightarrow> cell list \<Rightarrow> real" where
  "group_mean k labels vs =
     (let g = group_values k labels vs in sum_list g / real (length g))"

text \<open>
  \<^verbatim>\<open>df.groupby(group_label).mean()\<close>: one row for each distinct label, in sorted order,
  holding the group's mean of each numeric column other than the label column.
\<close>

definition groupby_mean :: "frame \<Rightarrow> string \<Rightarrow> error + (cell \<times> (string \<times> real) list) list" where
  "groupby_mean df group_label =
     (case getitem df group_label of
        Inl e \<Rightarrow> Inl e
      | Inr labels \<Rightarrow>
          Inr (map (\<lambda>k. (k, map (\<lambda>(c, vs). (c, group_mean k labels vs))
                              (filter (\<lambda>(c, vs). c \<noteq> group_label \<and> is_numeric vs) df)))
                   (sorted_list_of_set (set labels))))"

text \<open>Positional access, \<^verbatim>\<open>.iloc(0)[i]\<close> on the rows and \<^verbatim>\<open>[i]\<close> on one row.\<close>

definition iloc :: "'a list \<Rightarrow> nat \<Rightarrow> error + 'a" where
  "iloc xs i = (if i < length xs then Inr (xs ! i) else Inl IndexError)"

text \<open>
  \<^verbatim>\<open>
  def difference_of_means_abs(df, group_label):
      one_value = df.groupby(group_label).mean().iloc(0)[0][0]
      another_value = df.groupby(group_label).mean().iloc(0)[1][0]

      observed_diff = abs(one_value-another_value)
      return observed_diff
  \<close>
  \<open>mean_at df group_label i\<close> is the expression
  \<^verbatim>\<open>df.groupby(group_label).mean().iloc(0)[i][0]\<close>: row \<open>i\<close> of the grouped means, and in
  that row the first mean. A row or a mean that is not there raises IndexError.
\<close>

definition mean_at :: "frame \<Rightarrow> string \<Rightarrow> nat \<Rightarrow> error + real" where
  "mean_at df group_label i =
     (case groupby_mean df group_label of
        Inl e \<Rightarrow> Inl e
      | Inr rows \<Rightarrow>
          (case iloc rows i of
             Inl e \<Rightarrow> Inl e
           | Inr row \<Rightarrow>
               (case iloc (snd row) 0 of
                  Inl e \<Rightarrow> Inl e
                | Inr m \<Rightarrow> Inr (snd m))))"

definition difference_of_means_abs :: "frame \<Rightarrow> string \<Rightarrow> error + real" where
  "difference_of_means_abs df group_label =
     (case mean_at df group_label 0 of
        Inl e \<Rightarrow> Inl e
      | Inr one_value \<Rightarrow>
          (case mean_at df group_label 1 of
             Inl e \<Rightarrow> Inl e
           | Inr another_value \<Rightarrow> Inr \<bar>one_value - another_value\<bar>))"

subsection \<open>One simulated statistic\<close>

text \<open>
  \<^verbatim>\<open>
  def one_simulated_difference(df, group_label):
      temp_df = df.sample(n=df.shape[0], replace=False).reset_index()
      df['Shuffled Label'] = temp_df[group_label]
      df = df.drop(group_label, axis=1)
      return difference_of_means_abs(df, 'Shuffled Label')
  \<close>
  The second line writes into the frame the caller passed; the third line binds the
  local name to a new frame. The model returns the result of the call together with
  the caller's frame as the call leaves it.
\<close>

definition one_simulated_difference ::
  "nat list \<Rightarrow> frame \<Rightarrow> string \<Rightarrow> (error + real) \<times> frame" where
  "one_simulated_difference perm df group_label =
     (case reset_index (sample perm df) of
        Inl e \<Rightarrow> (Inl e, df)
      | Inr temp_df \<Rightarrow>
          (case getitem temp_df group_label of
             Inl e \<Rightarrow> (Inl e, df)
           | Inr shuffled \<Rightarrow>
               (let df1 = setitem df ''Shuffled Label'' shuffled in
                (case drop_column group_label df1 of
                   Inl e \<Rightarrow> (Inl e, df1)
                 | Inr df2 \<Rightarrow> (difference_of_means_abs df2 ''Shuffled Label'', df1)))))"

subsection \<open>The repetitions and the empirical P-value\<close>

text \<open>
  \<^verbatim>\<open>
  differences = []
  repetitions = 20000
  for i in np.arange(repetitions):
      new_difference = one_simulated_difference(bta_df, 'Group')
      differences.append(new_difference)
  \<close>
  \<^verbatim>\<open>np.arange(repetitions)\<close> is empty when \<open>repetitions\<close> is zero or negative. The draw of
  trial \<open>i\<close> is \<open>rng i\<close>. An exception in a trial ends the loop.
\<close>

definition arange :: "int \<Rightarrow> nat list" where
  "arange n = [0..<nat n]"

fun repetitions_loop ::
  "(nat \<Rightarrow> nat list) \<Rightarrow> string \<Rightarrow> nat list \<Rightarrow> frame \<Rightarrow> real list \<Rightarrow> error + real list \<times> frame" where
  "repetitions_loop rng group_label [] df differences = Inr (differences, df)"
| "repetitions_loop rng group_label (i # rest) df differences =
     (case one_simulated_difference (rng i) df group_label of
        (Inl e, df') \<Rightarrow> Inl e
      | (Inr new_difference, df') \<Rightarrow>
          repetitions_loop rng group_label rest df' (differences @ [new_difference]))"

text \<open>
  \<^verbatim>\<open>
  empirical_P = np.count_nonzero(differences <= observed_difference) / repetitions
  \<close>
  The comparison of the list with the number is made element by element; the count is
  an integer, and its division by a zero integer raises ZeroDivisionError.
\<close>

definition empirical_P :: "real list \<Rightarrow> real \<Rightarrow> int \<Rightarrow> error + real" where
  "empirical_P differences observed_difference repetitions =
     (if repetitions = 0 then Inl ZeroDivisionError
      else Inr (real (length (filter (\<lambda>d. d \<le> observed_difference) differences))
                / real_of_int repetitions))"

text \<open>
  The cells of the test in the notebook's order: the observed statistic, the loop, the
  P-value. The result is the observed statistic, the simulated statistics, the P-value
  and the frame as the run leaves it.
\<close>

definition run_permutation_test ::
  "(nat \<Rightarrow> nat list) \<Rightarrow> frame \<Rightarrow> string \<Rightarrow> int \<Rightarrow> error + real \<times> real list \<times> real \<times> frame" where
  "run_permutation_test rng df group_label repetitions =
     (case difference_of_means_abs df group_label of
        Inl e \<Rightarrow> Inl e
      | Inr observed_difference \<Rightarrow>
          (case repetitions_loop rng group_label (arange repetitions) df [] of
             Inl e \<Rightarrow> Inl e
           | Inr (differences, df') \<Rightarrow>
               (case empirical_P differences observed_difference repetitions of
                  Inl e \<Rightarrow> Inl e
                | Inr p \<Rightarrow> Inr (observed_difference, differences, p, df'))))"

subsection \<open>Datasets\<close>

text \<open>
  A dataset for the test, with the label column \<open>group_label\<close>: the column names are
  distinct and not both of \<^verbatim>\<open>index\<close> and \<^verbatim>\<open>level_0\<close> are among them, every column has
  one cell for each row, the label column is not the column the simulation writes, it
  holds exactly two distinct labels, and some other column, not the written one, is
  numeric (the outcomes).
\<close>

definition valid_dataset :: "string \<Rightarrow> frame \<Rightarrow> bool" where
  "valid_dataset group_label df =
     (distinct (names df) \<and>
      (\<forall>(c, vs) \<in> set df. length vs = shape0 df) \<and>
      \<not> (''index'' \<in> set (names df) \<and> ''level_0'' \<in> set (names df)) \<and>
      group_label \<noteq> ''Shuffled Label'' \<and>
      (case map_of df group_label of None \<Rightarrow> False | Some labels \<Rightarrow> card (set labels) = 2) \<and>
      (\<exists>(c, vs) \<in> set df. c \<noteq> group_label \<and> c \<noteq> ''Shuffled Label'' \<and> is_numeric vs))"

text \<open>Every number outside the label column is 0 or 1.\<close>

definition binary_outcomes :: "string \<Rightarrow> frame \<Rightarrow> bool" where
  "binary_outcomes group_label df =
     (\<forall>(c, vs) \<in> set df. c \<noteq> group_label \<longrightarrow>
        (\<forall>v \<in> set vs. is_num v \<longrightarrow> the_num v = 0 \<or> the_num v = 1))"

text \<open>The same, leaving out the column that the simulation writes as well.\<close>

definition binary_beside :: "string \<Rightarrow> frame \<Rightarrow> bool" where
  "binary_beside group_label df =
     (\<forall>(c, vs) \<in> set df. c \<noteq> group_label \<and> c \<noteq> ''Shuffled Label'' \<longrightarrow>
        (\<forall>v \<in> set vs. is_num v \<longrightarrow> the_num v = 0 \<or> the_num v = 1))"

text \<open>Exchanging the two labels \<open>a\<close> and \<open>b\<close> in a label column.\<close>

definition swap_labels :: "cell \<Rightarrow> cell \<Rightarrow> cell \<Rightarrow> cell" where
  "swap_labels a b l = (if l = a then b else if l = b then a else l)"

text \<open>
  The P-value in the words of the specification: the fraction of the simulated
  statistics that are greater than or equal to the observed one.
\<close>

definition fraction_ge :: "real list \<Rightarrow> real \<Rightarrow> real" where
  "fraction_ge differences observed =
     real (length (filter (\<lambda>d. d \<ge> observed) differences)) / real (length differences)"

text \<open>Example tables.\<close>

definition four_patients :: frame where
  "four_patients =
     [(''Group'', [Str ''A'', Str ''A'', Str ''B'', Str ''B'']),
      (''Result'', [Num 1, Num 1, Num 0, Num 0])]"

definition scenario_5_16 :: frame where
  "scenario_5_16 =
     [(''Group'', replicate 5 (Str ''A'') @ replicate 16 (Str ''B'')),
      (''Result'', map Num ([1, 1, 1, 0, 0] @ 1 # replicate 15 0))]"

definition one_label :: frame where
  "one_label = [(''Group'', [Str ''A'', Str ''A'']), (''Result'', [Num 1, Num 0])]"

definition three_labels :: frame where
  "three_labels =
     [(''Group'', [Str ''A'', Str ''B'', Str ''C'']),
      (''Result'', [Num 1, Num 0, Num 0])]"

section \<open>Properties of the building blocks\<close>

subsection \<open>Shuffling and writing a column\<close>

lemma mset_map_nth_permutation:
  assumes "is_permutation perm (length vs)"
  shows "mset (map (\<lambda>i. vs ! i) perm) = mset vs"
proof -
  have "mset (map (\<lambda>i. vs ! i) perm) = image_mset (\<lambda>i. vs ! i) (mset perm)"
    by simp
  also have "\<dots> = image_mset (\<lambda>i. vs ! i) (mset [0..<length vs])"
    using assms by (simp add: is_permutation_def)
  also have "\<dots> = mset (map (\<lambda>i. vs ! i) [0..<length vs])"
    by simp
  also have "\<dots> = mset vs"
    by (simp add: map_nth)
  finally show ?thesis .
qed

lemma is_permutation_length: "is_permutation perm n \<Longrightarrow> length perm = n"
  unfolding is_permutation_def by (metis size_mset length_upt diff_zero)

lemma map_of_sample:
  "map_of (snd (sample perm df)) c = map_option (\<lambda>vs. map (\<lambda>i. vs ! i) perm) (map_of df c)"
  by (induction df) (auto simp: sample_def)

lemma names_sample: "names (snd (sample perm df)) = names df"
  by (induction df) (auto simp: sample_def names_def)

lemma map_of_setitem: "map_of (setitem df c vs) = (map_of df)(c \<mapsto> vs)"
  by (induction df c vs rule: setitem.induct) auto

lemma set_names_setitem: "set (names (setitem df c vs)) = insert c (set (names df))"
  by (induction df c vs rule: setitem.induct) (auto simp: names_def)

lemma distinct_names_setitem: "distinct (names df) \<Longrightarrow> distinct (names (setitem df c vs))"
proof (induction df c vs rule: setitem.induct)
  case (1 c vs)
  then show ?case by (simp add: names_def)
next
  case (2 c' vs' rest c vs)
  then show ?case
    using set_names_setitem [of rest c vs] by (auto simp: names_def)
qed

lemma set_setitem_subset: "set (setitem df c vs) \<subseteq> insert (c, vs) (set df)"
  by (induction df c vs rule: setitem.induct) auto

lemma set_setitem_other:
  "(c', vs') \<in> set df \<Longrightarrow> c' \<noteq> c \<Longrightarrow> (c', vs') \<in> set (setitem df c vs)"
  by (induction df c vs rule: setitem.induct) auto

lemma filter_setitem:
  "filter (\<lambda>p. fst p \<noteq> c \<and> Q p) (setitem df c vs) = filter (\<lambda>p. fst p \<noteq> c \<and> Q p) df"
  by (induction df c vs rule: setitem.induct) auto

lemma shape0_setitem: "length vs = shape0 df \<Longrightarrow> shape0 (setitem df c vs) = shape0 df"
  by (cases df) (auto simp: shape0_def)

lemma sum_list_unit_bounds:
  fixes g :: "real list"
  shows "\<forall>x \<in> set g. 0 \<le> x \<and> x \<le> 1 \<Longrightarrow> 0 \<le> sum_list g \<and> sum_list g \<le> real (length g)"
  by (induction g) auto

lemma mean_unit_bounds:
  fixes g :: "real list"
  assumes "\<forall>x \<in> set g. 0 \<le> x \<and> x \<le> 1"
  shows "0 \<le> sum_list g / real (length g) \<and> sum_list g / real (length g) \<le> 1"
proof (cases "g = []")
  case True
  then show ?thesis by simp
next
  case False
  then have "0 < real (length g)" by simp
  with sum_list_unit_bounds [OF assms] show ?thesis
    by (simp add: divide_le_eq)
qed

lemma group_values_subset:
  "x \<in> set (group_values k labels vs) \<Longrightarrow> \<exists>v \<in> set vs. x = the_num v"
  by (auto simp: group_values_def dest: set_zip_rightD)

lemma group_mean_unit_bounds:
  assumes "\<forall>v \<in> set vs. 0 \<le> the_num v \<and> the_num v \<le> 1"
  shows "0 \<le> group_mean k labels vs \<and> group_mean k labels vs \<le> 1"
proof -
  have "\<forall>x \<in> set (group_values k labels vs). 0 \<le> x \<and> x \<le> 1"
    using assms group_values_subset by blast
  then show ?thesis
    unfolding group_mean_def Let_def by (rule mean_unit_bounds)
qed

subsection \<open>What the statistic is\<close>

lemma difference_of_means_abs_Inr:
  assumes "map_of df gl = Some labels"
    and "2 \<le> card (set labels)"
    and "filter (\<lambda>(c, vs). c \<noteq> gl \<and> is_numeric vs) df = (c, vs) # rest"
  shows "difference_of_means_abs df gl =
           Inr \<bar>group_mean (sorted_list_of_set (set labels) ! 0) labels vs
                - group_mean (sorted_list_of_set (set labels) ! 1) labels vs\<bar>"
  using assms
  by (simp add: difference_of_means_abs_def mean_at_def groupby_mean_def getitem_def iloc_def)

lemma difference_of_means_abs_few:
  assumes "map_of df gl = Some labels" and "card (set labels) < 2"
  shows "difference_of_means_abs df gl = Inl IndexError"
  using assms
  by (auto simp: difference_of_means_abs_def mean_at_def groupby_mean_def getitem_def iloc_def
      split: sum.splits)

lemma difference_of_means_abs_cases:
  assumes "difference_of_means_abs df gl = Inr r"
  shows "\<exists>labels c vs rest. map_of df gl = Some labels \<and> 2 \<le> card (set labels) \<and>
           filter (\<lambda>(c, vs). c \<noteq> gl \<and> is_numeric vs) df = (c, vs) # rest \<and>
           r = \<bar>group_mean (sorted_list_of_set (set labels) ! 0) labels vs
                - group_mean (sorted_list_of_set (set labels) ! 1) labels vs\<bar>"
proof -
  obtain labels where l: "map_of df gl = Some labels"
    using assms
    by (auto simp: difference_of_means_abs_def mean_at_def groupby_mean_def getitem_def
        split: option.splits)
  have c2: "2 \<le> card (set labels)"
  proof (rule ccontr)
    assume "\<not> 2 \<le> card (set labels)"
    then have "card (set labels) < 2" by simp
    from difference_of_means_abs_few [OF l this] assms show False by simp
  qed
  obtain c vs rest where f: "filter (\<lambda>(c, vs). c \<noteq> gl \<and> is_numeric vs) df = (c, vs) # rest"
    using assms l c2
    by (cases "filter (\<lambda>(c, vs). c \<noteq> gl \<and> is_numeric vs) df")
      (auto simp: difference_of_means_abs_def mean_at_def groupby_mean_def getitem_def iloc_def)
  from difference_of_means_abs_Inr [OF l c2 f] assms l c2 f show ?thesis
    by auto
qed

lemma difference_of_means_abs_nonneg:
  "difference_of_means_abs df gl = Inr r \<Longrightarrow> 0 \<le> r"
  by (auto simp: difference_of_means_abs_def split: sum.splits)

lemma filter_head_mem:
  "filter P xs = x # rest \<Longrightarrow> x \<in> set xs \<and> P x"
proof -
  assume a: "filter P xs = x # rest"
  have "x \<in> set (filter P xs)" by (simp add: a)
  then show ?thesis by simp
qed

lemma difference_of_means_abs_le_1:
  assumes "difference_of_means_abs df gl = Inr r"
    and "\<forall>(c, vs) \<in> set df. c \<noteq> gl \<longrightarrow> (\<forall>v \<in> set vs. is_num v \<longrightarrow> the_num v = 0 \<or> the_num v = 1)"
  shows "r \<le> 1"
proof -
  from difference_of_means_abs_cases [OF assms(1)]
  obtain labels c vs rest where l: "map_of df gl = Some labels"
    and f: "filter (\<lambda>(c, vs). c \<noteq> gl \<and> is_numeric vs) df = (c, vs) # rest"
    and r: "r = \<bar>group_mean (sorted_list_of_set (set labels) ! 0) labels vs
                - group_mean (sorted_list_of_set (set labels) ! 1) labels vs\<bar>"
    by blast
  from filter_head_mem [OF f] have m: "(c, vs) \<in> set df" "c \<noteq> gl" "is_numeric vs"
    by auto
  have "\<forall>v \<in> set vs. 0 \<le> the_num v \<and> the_num v \<le> 1"
  proof
    fix v assume v: "v \<in> set vs"
    with m(3) have "is_num v" by (simp add: is_numeric_def list_all_iff)
    with assms(2) m v have "the_num v = 0 \<or> the_num v = 1" by blast
    then show "0 \<le> the_num v \<and> the_num v \<le> 1" by auto
  qed
  then have "\<And>k. 0 \<le> group_mean k labels vs \<and> group_mean k labels vs \<le> 1"
    by (rule group_mean_unit_bounds)
  then have "0 \<le> group_mean (sorted_list_of_set (set labels) ! 0) labels vs \<and>
             group_mean (sorted_list_of_set (set labels) ! 0) labels vs \<le> 1 \<and>
             0 \<le> group_mean (sorted_list_of_set (set labels) ! 1) labels vs \<and>
             group_mean (sorted_list_of_set (set labels) ! 1) labels vs \<le> 1"
    by blast
  with r show ?thesis by linarith
qed

subsection \<open>One trial and the loop keep a dataset valid\<close>

lemma filter_nonempty_head:
  "x \<in> set xs \<Longrightarrow> P x \<Longrightarrow> \<exists>y rest. filter P xs = y # rest"
  by (metis filter_empty_conv neq_Nil_conv)

lemma map_of_drop_other:
  "c \<noteq> g \<Longrightarrow> map_of (filter (\<lambda>(c', vs). c' \<noteq> g) df) c = map_of df c"
  by (induction df) auto

lemma valid_dataset_labels:
  assumes "valid_dataset gl df"
  obtains labels where "map_of df gl = Some labels" and "card (set labels) = 2"
    and "length labels = shape0 df" and "gl \<in> set (names df)"
proof -
  from assms obtain labels where l: "map_of df gl = Some labels" and c: "card (set labels) = 2"
    by (auto simp: valid_dataset_def split: option.splits)
  from l have m: "(gl, labels) \<in> set df" by (rule map_of_SomeD)
  with assms have len: "length labels = shape0 df"
    by (auto simp: valid_dataset_def)
  from m have n: "gl \<in> set (names df)" by (force simp: names_def)
  with l c len that show ?thesis by blast
qed

lemma shuffled_of_valid:
  assumes "\<not> (''index'' \<in> set (names df) \<and> ''level_0'' \<in> set (names df))"
    and "map_of df gl = Some labels"
  shows "\<exists>temp_df. reset_index (sample perm df) = Inr temp_df \<and>
           getitem temp_df gl = Inr (map (\<lambda>i. labels ! i) perm)"
proof -
  define default where "default = (if ''index'' \<in> set (names df) then ''level_0'' else ''index'')"
  have fresh: "default \<notin> set (names df)"
    using assms(1) by (auto simp: default_def)
  have "gl \<in> set (names df)"
    using map_of_SomeD [OF assms(2)] by (force simp: names_def)
  with fresh have ne: "gl \<noteq> default" by auto
  obtain idx sdf where s: "sample perm df = (idx, sdf)" by (cases "sample perm df")
  then have sdf: "sdf = snd (sample perm df)" by simp
  have n: "names sdf = names df" unfolding sdf by (rule names_sample)
  have r: "reset_index (sample perm df) = Inr ((default, map (\<lambda>i. Num (real i)) idx) # sdf)"
    using fresh by (simp add: reset_index_def s n Let_def default_def)
  have "map_of sdf gl = Some (map (\<lambda>i. labels ! i) perm)"
    unfolding sdf by (simp add: map_of_sample assms(2))
  with ne have "getitem ((default, map (\<lambda>i. Num (real i)) idx) # sdf) gl = Inr (map (\<lambda>i. labels ! i) perm)"
    by (simp add: getitem_def)
  with r show ?thesis by blast
qed

lemma one_simulated_difference_frame:
  assumes "\<not> (''index'' \<in> set (names df) \<and> ''level_0'' \<in> set (names df))"
    and "map_of df gl = Some labels"
  shows "snd (one_simulated_difference perm df gl) = setitem df ''Shuffled Label'' (map (\<lambda>i. labels ! i) perm)"
proof -
  from shuffled_of_valid [OF assms, of perm] obtain temp_df
    where "reset_index (sample perm df) = Inr temp_df"
      and "getitem temp_df gl = Inr (map (\<lambda>i. labels ! i) perm)" by blast
  then show ?thesis
    by (simp add: one_simulated_difference_def Let_def split: sum.splits)
qed

lemma valid_dataset_setitem:
  assumes v: "valid_dataset gl df" and len: "length sh = shape0 df"
  shows "valid_dataset gl (setitem df ''Shuffled Label'' sh)"
proof -
  let ?df1 = "setitem df ''Shuffled Label'' sh"
  have d: "distinct (names ?df1)"
    using v by (simp add: valid_dataset_def distinct_names_setitem)
  have s0: "shape0 ?df1 = shape0 df" using len by (rule shape0_setitem)
  have l: "\<forall>(c, vs) \<in> set ?df1. length vs = shape0 ?df1"
  proof (clarify)
    fix c vs assume "(c, vs) \<in> set ?df1"
    then have "(c, vs) = (''Shuffled Label'', sh) \<or> (c, vs) \<in> set df"
      using set_setitem_subset [of df "''Shuffled Label''" sh] by auto
    then show "length vs = shape0 ?df1"
      using v len s0 by (auto simp: valid_dataset_def)
  qed
  have i: "\<not> (''index'' \<in> set (names ?df1) \<and> ''level_0'' \<in> set (names ?df1))"
    using v by (simp add: valid_dataset_def set_names_setitem)
  have g: "gl \<noteq> ''Shuffled Label''" using v by (simp add: valid_dataset_def)
  then have m: "map_of ?df1 gl = map_of df gl" by (simp add: map_of_setitem)
  have n: "\<exists>(c, vs) \<in> set ?df1. c \<noteq> gl \<and> c \<noteq> ''Shuffled Label'' \<and> is_numeric vs"
  proof -
    from v obtain c vs where "(c, vs) \<in> set df" "c \<noteq> gl" "c \<noteq> ''Shuffled Label''" "is_numeric vs"
      by (auto simp: valid_dataset_def)
    moreover from this have "(c, vs) \<in> set ?df1" by (simp add: set_setitem_other)
    ultimately show ?thesis by blast
  qed
  from d l i g m n v show ?thesis
    unfolding valid_dataset_def by simp
qed

lemma binary_outcomes_beside: "binary_outcomes gl df \<Longrightarrow> binary_beside gl df"
  unfolding binary_outcomes_def binary_beside_def by blast

lemma binary_beside_setitem:
  assumes "binary_beside gl df"
  shows "binary_beside gl (setitem df ''Shuffled Label'' sh)"
  unfolding binary_beside_def
proof (clarify)
  fix c vs v
  assume a: "(c, vs) \<in> set (setitem df ''Shuffled Label'' sh)" "c \<noteq> gl" "c \<noteq> ''Shuffled Label''"
    "v \<in> set vs" "is_num v" "the_num v \<noteq> 1"
  from a(1,3) have "(c, vs) \<in> set df"
    using set_setitem_subset [of df "''Shuffled Label''" sh] by auto
  with assms a show "the_num v = 0"
    unfolding binary_beside_def by blast
qed

lemma binary_beside_relabelled:
  assumes "binary_beside gl df"
  shows "binary_outcomes ''Shuffled Label''
           (filter (\<lambda>(c', vs). c' \<noteq> gl) (setitem df ''Shuffled Label'' sh))"
  unfolding binary_outcomes_def
proof (clarify)
  fix c vs v
  assume a: "(c, vs) \<in> set (filter (\<lambda>(c', vs). c' \<noteq> gl) (setitem df ''Shuffled Label'' sh))"
    "c \<noteq> ''Shuffled Label''" "v \<in> set vs" "is_num v" "the_num v \<noteq> 1"
  then have "(c, vs) \<in> set (setitem df ''Shuffled Label'' sh)" and g: "c \<noteq> gl" by auto
  with a(2) have "(c, vs) \<in> set df"
    using set_setitem_subset [of df "''Shuffled Label''" sh] by auto
  with assms g a show "the_num v = 0"
    unfolding binary_beside_def by blast
qed

lemma one_simulated_difference_valid:
  assumes v: "valid_dataset gl df" and p: "is_permutation perm (shape0 df)"
  shows "\<exists>d df'. one_simulated_difference perm df gl = (Inr d, df') \<and> 0 \<le> d \<and>
           valid_dataset gl df' \<and> shape0 df' = shape0 df \<and>
           (binary_beside gl df \<longrightarrow> binary_beside gl df' \<and> d \<le> 1)"
proof -
  from v obtain labels where l: "map_of df gl = Some labels" and c: "card (set labels) = 2"
    and len: "length labels = shape0 df" and gn: "gl \<in> set (names df)"
    by (rule valid_dataset_labels)
  have ix: "\<not> (''index'' \<in> set (names df) \<and> ''level_0'' \<in> set (names df))"
    and g: "gl \<noteq> ''Shuffled Label''"
    using v by (simp_all add: valid_dataset_def)
  let ?sh = "map (\<lambda>i. labels ! i) perm"
  let ?df1 = "setitem df ''Shuffled Label'' ?sh"
  let ?df2 = "filter (\<lambda>(c', vs). c' \<noteq> gl) ?df1"
  from shuffled_of_valid [OF ix l, of perm] obtain temp_df
    where t: "reset_index (sample perm df) = Inr temp_df"
      and sh: "getitem temp_df gl = Inr ?sh" by blast
  have "gl \<in> set (names ?df1)" using gn by (simp add: set_names_setitem)
  then have dr: "drop_column gl ?df1 = Inr ?df2" by (simp add: drop_column_def)
  have res: "one_simulated_difference perm df gl = (difference_of_means_abs ?df2 ''Shuffled Label'', ?df1)"
    using t sh dr by (simp add: one_simulated_difference_def Let_def)
  have "is_permutation perm (length labels)" using p len by simp
  then have msh: "mset ?sh = mset labels"
    by (rule mset_map_nth_permutation)
  then have "set ?sh = set labels" by (rule mset_eq_setD)
  with c have c2: "2 \<le> card (set ?sh)" by simp
  have lsh: "length ?sh = shape0 df"
    using p by (simp add: is_permutation_length)
  have m2: "map_of ?df2 ''Shuffled Label'' = Some ?sh"
    using g by (simp add: map_of_drop_other map_of_setitem)
  from v obtain c0 vs0 where c0: "(c0, vs0) \<in> set df" "c0 \<noteq> gl" "c0 \<noteq> ''Shuffled Label''" "is_numeric vs0"
    by (auto simp: valid_dataset_def)
  then have "(c0, vs0) \<in> set ?df2" by (simp add: set_setitem_other)
  moreover from c0 have "(\<lambda>(c, vs). c \<noteq> ''Shuffled Label'' \<and> is_numeric vs) (c0, vs0)"
    by simp
  ultimately have "\<exists>y rest. filter (\<lambda>(c, vs). c \<noteq> ''Shuffled Label'' \<and> is_numeric vs) ?df2 = y # rest"
    by (rule filter_nonempty_head)
  then obtain c1 vs1 rest where f: "filter (\<lambda>(c, vs). c \<noteq> ''Shuffled Label'' \<and> is_numeric vs) ?df2 = (c1, vs1) # rest"
    by (metis surj_pair)
  from difference_of_means_abs_Inr [OF m2 c2 f] obtain d
    where d: "difference_of_means_abs ?df2 ''Shuffled Label'' = Inr d" by blast
  have nn: "0 \<le> d" using d by (rule difference_of_means_abs_nonneg)
  have vd: "valid_dataset gl ?df1" using v lsh by (rule valid_dataset_setitem)
  have s0: "shape0 ?df1 = shape0 df" using lsh by (rule shape0_setitem)
  have le: "binary_beside gl df \<longrightarrow> binary_beside gl ?df1 \<and> d \<le> 1"
  proof
    assume b: "binary_beside gl df"
    then have "binary_outcomes ''Shuffled Label'' ?df2" by (rule binary_beside_relabelled)
    with d have "d \<le> 1"
      unfolding binary_outcomes_def by (rule difference_of_means_abs_le_1)
    moreover from b have "binary_beside gl ?df1" by (rule binary_beside_setitem)
    ultimately show "binary_beside gl ?df1 \<and> d \<le> 1" by simp
  qed
  have "one_simulated_difference perm df gl = (Inr d, ?df1)" using res d by simp
  with nn vd s0 le show ?thesis by (intro exI conjI)
qed

lemma repetitions_loop_valid:
  assumes "valid_dataset gl df" and "\<forall>i \<in> set trials. is_permutation (rng i) (shape0 df)"
  shows "\<exists>ds df'. repetitions_loop rng gl trials df acc = Inr (acc @ ds, df') \<and>
           length ds = length trials \<and> (\<forall>d \<in> set ds. 0 \<le> d) \<and>
           (binary_beside gl df \<longrightarrow> (\<forall>d \<in> set ds. d \<le> 1))"
  using assms
proof (induction trials arbitrary: df acc)
  case Nil
  then show ?case by simp
next
  case (Cons i rest)
  from Cons.prems have p: "is_permutation (rng i) (shape0 df)" by simp
  from one_simulated_difference_valid [OF Cons.prems(1) p] obtain d df1
    where step: "one_simulated_difference (rng i) df gl = (Inr d, df1)" and nn: "0 \<le> d"
      and v1: "valid_dataset gl df1" and s1: "shape0 df1 = shape0 df"
      and le: "binary_beside gl df \<longrightarrow> binary_beside gl df1 \<and> d \<le> 1"
    by blast
  from Cons.prems s1 have p1: "\<forall>j \<in> set rest. is_permutation (rng j) (shape0 df1)" by simp
  from Cons.IH [OF v1 p1, of "acc @ [d]"] obtain ds df'
    where loop: "repetitions_loop rng gl rest df1 (acc @ [d]) = Inr ((acc @ [d]) @ ds, df')"
      and len: "length ds = length rest" and nns: "\<forall>d \<in> set ds. 0 \<le> d"
      and les: "binary_beside gl df1 \<longrightarrow> (\<forall>d \<in> set ds. d \<le> 1)"
    by blast
  have "repetitions_loop rng gl (i # rest) df acc = Inr (acc @ (d # ds), df')"
    using step loop by simp
  moreover have "length (d # ds) = length (i # rest)" using len by simp
  moreover have "\<forall>x \<in> set (d # ds). 0 \<le> x" using nn nns by simp
  moreover have "binary_beside gl df \<longrightarrow> (\<forall>x \<in> set (d # ds). x \<le> 1)"
    using le les by simp
  ultimately show ?case by blast
qed

lemma observed_of_valid:
  assumes v: "valid_dataset gl df"
  shows "\<exists>obs. difference_of_means_abs df gl = Inr obs \<and> 0 \<le> obs"
proof -
  from v obtain labels where l: "map_of df gl = Some labels" and c: "card (set labels) = 2"
    by (rule valid_dataset_labels)
  from c have c2: "2 \<le> card (set labels)" by simp
  from v obtain c0 vs0 where c0: "(c0, vs0) \<in> set df" "c0 \<noteq> gl" "is_numeric vs0"
    by (auto simp: valid_dataset_def)
  from c0(1) have "(c0, vs0) \<in> set df" .
  moreover from c0 have "(\<lambda>(c, vs). c \<noteq> gl \<and> is_numeric vs) (c0, vs0)" by simp
  ultimately have "\<exists>y rest. filter (\<lambda>(c, vs). c \<noteq> gl \<and> is_numeric vs) df = y # rest"
    by (rule filter_nonempty_head)
  then obtain c1 vs1 rest where f: "filter (\<lambda>(c, vs). c \<noteq> gl \<and> is_numeric vs) df = (c1, vs1) # rest"
    by (metis surj_pair)
  from difference_of_means_abs_Inr [OF l c2 f] obtain obs
    where o: "difference_of_means_abs df gl = Inr obs" by blast
  then have "0 \<le> obs" by (rule difference_of_means_abs_nonneg)
  with o show ?thesis by blast
qed

lemma length_arange: "length (arange R) = nat R"
  by (simp add: arange_def)

lemma run_valid:
  assumes v: "valid_dataset gl df" and r: "R \<noteq> 0"
    and p: "\<forall>i \<in> set (arange R). is_permutation (rng i) (shape0 df)"
  shows "\<exists>obs ds df'. difference_of_means_abs df gl = Inr obs \<and>
           repetitions_loop rng gl (arange R) df [] = Inr (ds, df') \<and>
           length ds = nat R \<and> (\<forall>d \<in> set ds. 0 \<le> d) \<and>
           (binary_beside gl df \<longrightarrow> (\<forall>d \<in> set ds. d \<le> 1)) \<and>
           run_permutation_test rng df gl R =
             Inr (obs, ds, real (length (filter (\<lambda>d. d \<le> obs) ds)) / real_of_int R, df')"
proof -
  from observed_of_valid [OF v] obtain obs
    where o: "difference_of_means_abs df gl = Inr obs" by blast
  from repetitions_loop_valid [OF v p, of "[]"] obtain ds df'
    where loop: "repetitions_loop rng gl (arange R) df [] = Inr (ds, df')"
      and len: "length ds = nat R" and nn: "\<forall>d \<in> set ds. 0 \<le> d"
      and le: "binary_beside gl df \<longrightarrow> (\<forall>d \<in> set ds. d \<le> 1)"
    by (auto simp: length_arange)
  have "run_permutation_test rng df gl R =
          Inr (obs, ds, real (length (filter (\<lambda>d. d \<le> obs) ds)) / real_of_int R, df')"
    using o loop r by (simp add: run_permutation_test_def empirical_P_def)
  with o loop len nn le show ?thesis by (intro exI conjI)
qed


subsection \<open>What a trial and a run leave in the frame\<close>

lemma filter_other_setitem:
  "filter (\<lambda>(c', vs'). c' \<noteq> c) (setitem df c vs) = filter (\<lambda>(c', vs'). c' \<noteq> c) df"
  by (induction df c vs rule: setitem.induct) auto

lemma one_simulated_difference_frame_cases:
  "snd (one_simulated_difference perm df gl) = df \<or>
   (\<exists>sh. snd (one_simulated_difference perm df gl) = setitem df ''Shuffled Label'' sh)"
  by (auto simp: one_simulated_difference_def Let_def split: sum.splits)

lemma one_simulated_difference_keeps:
  "filter (\<lambda>(c, vs). c \<noteq> ''Shuffled Label'') (snd (one_simulated_difference perm df gl)) =
   filter (\<lambda>(c, vs). c \<noteq> ''Shuffled Label'') df"
  using one_simulated_difference_frame_cases [of perm df gl]
  by (auto simp: filter_other_setitem)

lemma repetitions_loop_keeps:
  "repetitions_loop rng gl trials df acc = Inr (ds, df') \<Longrightarrow>
   filter (\<lambda>(c, vs). c \<noteq> ''Shuffled Label'') df' = filter (\<lambda>(c, vs). c \<noteq> ''Shuffled Label'') df"
proof (induction trials arbitrary: df acc)
  case Nil
  then show ?case by simp
next
  case (Cons i rest)
  obtain res df1 where s: "one_simulated_difference (rng i) df gl = (res, df1)"
    by (cases "one_simulated_difference (rng i) df gl")
  with Cons.prems obtain d where "res = Inr d"
    and "repetitions_loop rng gl rest df1 (acc @ [d]) = Inr (ds, df')"
    by (cases res) auto
  then have "filter (\<lambda>(c, vs). c \<noteq> ''Shuffled Label'') df' = filter (\<lambda>(c, vs). c \<noteq> ''Shuffled Label'') df1"
    using Cons.IH by blast
  also have "\<dots> = filter (\<lambda>(c, vs). c \<noteq> ''Shuffled Label'') df"
    using one_simulated_difference_keeps [of "rng i" df gl] s by simp
  finally show ?case .
qed

subsection \<open>Renaming the groups\<close>

lemma group_values_inj:
  assumes "inj f"
  shows "group_values (f k) (map f labels) vs = group_values k labels vs"
proof -
  have "filter (\<lambda>(l, v). l = f k) (zip (map f labels) vs)
          = map (\<lambda>(l, v). (f l, v)) (filter (\<lambda>(l, v). l = k) (zip labels vs))"
  proof (induction labels arbitrary: vs)
    case Nil
    then show ?case by simp
  next
    case (Cons l labels)
    then show ?case using assms by (cases vs) (auto dest: injD)
  qed
  then show ?thesis
    by (simp add: group_values_def comp_def case_prod_beta)
qed

lemma group_mean_inj:
  "inj f \<Longrightarrow> group_mean (f k) (map f labels) vs = group_mean k labels vs"
  by (simp add: group_mean_def group_values_inj)

lemma swap_labels_involution: "swap_labels a b (swap_labels a b l) = l"
  by (simp add: swap_labels_def)

lemma inj_swap_labels: "inj (swap_labels a b)"
  by (rule inj_on_inverseI [where g = "swap_labels a b"]) (rule swap_labels_involution)

lemma two_keys:
  fixes a b :: cell
  assumes "a \<noteq> b"
  shows "sorted_list_of_set {a, b} = (if a < b then [a, b] else [b, a])"
proof -
  have "sorted_list_of_set {a, b} = insort a (sorted_list_of_set ({b} - {a}))"
    using sorted_list_of_set_insert_remove [of "{b}" a] by simp
  also have "{b} - {a} = {b}" using assms by auto
  finally show ?thesis using assms by auto
qed

section \<open>The claims\<close>

text \<open>
  C1. The claim is that the P-value of the run is the fraction of the simulated
  statistics that are greater than or equal to the observed one, which is also what the
  notebook's own text says before the cell. The cell counts the simulated statistics
  that are less than or equal to the observed one. On four patients with one trial the
  observed statistic is 1 and the simulated one is 0: the run returns the P-value 1,
  and the fraction the claim describes is 0.
\<close>

theorem p_value_counts_le_not_ge:
  "run_permutation_test (\<lambda>i. [0, 2, 1, 3]) four_patients ''Group'' 1 =
     Inr (1, [0], 1,
          [(''Group'', [Str ''A'', Str ''A'', Str ''B'', Str ''B'']),
           (''Result'', [Num 1, Num 1, Num 0, Num 0]),
           (''Shuffled Label'', [Str ''A'', Str ''B'', Str ''A'', Str ''B''])]) \<and>
   fraction_ge [0] 1 = 0"
  by code_simp

text \<open>
  C2, as stated: no call changes the dataset passed in. A call of
  \<open>one_simulated_difference\<close> on four patients leaves the caller's frame with a third
  column, \<^verbatim>\<open>Shuffled Label\<close>.
\<close>

theorem dataset_mutated_counterexample:
  "snd (one_simulated_difference [0, 2, 1, 3] four_patients ''Group'') =
     four_patients @ [(''Shuffled Label'', [Str ''A'', Str ''B'', Str ''A'', Str ''B''])] \<and>
   snd (one_simulated_difference [0, 2, 1, 3] four_patients ''Group'') \<noteq> four_patients"
  by code_simp

text \<open>
  C2, amended. \<open>difference_of_means_abs\<close> only reads its frame (in the model it
  returns no frame). \<open>one_simulated_difference\<close>, and with it a run, writes one column
  of the caller's frame, \<^verbatim>\<open>Shuffled Label\<close>: every other column (the outcomes, the
  group labels, and with them the rows) is after the call what it was before, in the
  same order.
\<close>

theorem only_shuffled_label_column_written:
  "filter (\<lambda>(c, vs). c \<noteq> ''Shuffled Label'') (snd (one_simulated_difference perm df group_label)) =
     filter (\<lambda>(c, vs). c \<noteq> ''Shuffled Label'') df \<and>
   (run_permutation_test rng df group_label repetitions = Inr (observed, differences, p, df') \<longrightarrow>
      filter (\<lambda>(c, vs). c \<noteq> ''Shuffled Label'') df' = filter (\<lambda>(c, vs). c \<noteq> ''Shuffled Label'') df)"
proof
  show "filter (\<lambda>(c, vs). c \<noteq> ''Shuffled Label'') (snd (one_simulated_difference perm df group_label)) =
     filter (\<lambda>(c, vs). c \<noteq> ''Shuffled Label'') df"
    by (rule one_simulated_difference_keeps)
  show "run_permutation_test rng df group_label repetitions = Inr (observed, differences, p, df') \<longrightarrow>
      filter (\<lambda>(c, vs). c \<noteq> ''Shuffled Label'') df' = filter (\<lambda>(c, vs). c \<noteq> ''Shuffled Label'') df"
  proof
    assume "run_permutation_test rng df group_label repetitions = Inr (observed, differences, p, df')"
    then have "repetitions_loop rng group_label (arange repetitions) df [] = Inr (differences, df')"
      by (auto simp: run_permutation_test_def split: sum.splits)
    then show "filter (\<lambda>(c, vs). c \<noteq> ''Shuffled Label'') df' = filter (\<lambda>(c, vs). c \<noteq> ''Shuffled Label'') df"
      by (rule repetitions_loop_keeps)
  qed
qed

theorem only_shuffled_label_column_written_witness:
  "run_permutation_test (\<lambda>i. [0, 2, 1, 3]) four_patients ''Group'' 1 =
     Inr (1, [0], 1, four_patients @ [(''Shuffled Label'', [Str ''A'', Str ''B'', Str ''A'', Str ''B''])]) \<and>
   filter (\<lambda>(c, vs). c \<noteq> ''Shuffled Label'')
     (four_patients @ [(''Shuffled Label'', [Str ''A'', Str ''B'', Str ''A'', Str ''B''])]) =
   filter (\<lambda>(c, vs). c \<noteq> ''Shuffled Label'') four_patients"
proof -
  have r: "run_permutation_test (\<lambda>i. [0, 2, 1, 3]) four_patients ''Group'' 1 =
     Inr (1, [0], 1, four_patients @ [(''Shuffled Label'', [Str ''A'', Str ''B'', Str ''A'', Str ''B''])])"
    by code_simp
  from only_shuffled_label_column_written [of "[0, 2, 1, 3]" four_patients "''Group''" "\<lambda>i. [0, 2, 1, 3]" 1 1 "[0]" 1
      "four_patients @ [(''Shuffled Label'', [Str ''A'', Str ''B'', Str ''A'', Str ''B''])]"] r
  show ?thesis by blast
qed

text \<open>
  C3. The relabelling of a trial is a rearrangement of the existing labels: when the
  draw is a rearrangement of the row positions, the column \<^verbatim>\<open>Shuffled Label\<close> that the
  trial writes holds every label value as many times as the label column of the
  dataset does.
\<close>

theorem relabelling_preserves_label_counts:
  assumes "getitem df group_label = Inr labels"
    and "\<not> (''index'' \<in> set (names df) \<and> ''level_0'' \<in> set (names df))"
    and "length labels = shape0 df" and "is_permutation perm (shape0 df)"
  shows "\<exists>shuffled.
           getitem (snd (one_simulated_difference perm df group_label)) ''Shuffled Label'' = Inr shuffled \<and>
           (\<forall>l. count_list shuffled l = count_list labels l)"
proof -
  from assms(1) have l: "map_of df group_label = Some labels"
    by (auto simp: getitem_def split: option.splits)
  let ?sh = "map (\<lambda>i. labels ! i) perm"
  have "snd (one_simulated_difference perm df group_label) = setitem df ''Shuffled Label'' ?sh"
    using assms(2) l by (rule one_simulated_difference_frame)
  then have g: "getitem (snd (one_simulated_difference perm df group_label)) ''Shuffled Label'' = Inr ?sh"
    by (simp add: getitem_def map_of_setitem)
  have "is_permutation perm (length labels)" using assms(3,4) by simp
  then have "mset ?sh = mset labels" by (rule mset_map_nth_permutation)
  then have "\<forall>l. count_list ?sh l = count_list labels l"
    by (metis count_mset)
  with g show ?thesis by blast
qed

theorem relabelling_preserves_label_counts_witness:
  "getitem four_patients ''Group'' = Inr [Str ''A'', Str ''A'', Str ''B'', Str ''B''] \<and>
   \<not> (''index'' \<in> set (names four_patients) \<and> ''level_0'' \<in> set (names four_patients)) \<and>
   length [Str ''A'', Str ''A'', Str ''B'', Str ''B''] = shape0 four_patients \<and>
   is_permutation [0, 2, 1, 3] (shape0 four_patients) \<and>
   (\<exists>shuffled.
      getitem (snd (one_simulated_difference [0, 2, 1, 3] four_patients ''Group'')) ''Shuffled Label'' = Inr shuffled \<and>
      (\<forall>l. count_list shuffled l = count_list [Str ''A'', Str ''A'', Str ''B'', Str ''B''] l))"
proof -
  have a: "getitem four_patients ''Group'' = Inr [Str ''A'', Str ''A'', Str ''B'', Str ''B'']" by code_simp
  have b: "\<not> (''index'' \<in> set (names four_patients) \<and> ''level_0'' \<in> set (names four_patients))"
    by code_simp
  have c: "length [Str ''A'', Str ''A'', Str ''B'', Str ''B''] = shape0 four_patients" by code_simp
  have d: "is_permutation [0, 2, 1, 3] (shape0 four_patients)" by code_simp
  from relabelling_preserves_label_counts [OF a b c d] a b c d show ?thesis by blast
qed

text \<open>
  C4, as stated: a run with a number of repetitions that is zero or negative fails.
  With - 3 repetitions the run on four patients returns: the observed statistic, no
  simulated statistic and the P-value 0.
\<close>

theorem negative_repetitions_counterexample:
  "run_permutation_test (\<lambda>i. [0, 2, 1, 3]) four_patients ''Group'' (- 3) =
     Inr (1, [], 0, four_patients)"
  by code_simp

text \<open>
  C4, amended. On a dataset whose observed statistic can be computed, a run with zero
  repetitions fails with ZeroDivisionError, raised by the division of the P-value after
  a loop that ran no trial; a run with a negative number of repetitions does not fail:
  it runs no trial either and returns the observed statistic, an empty list of simulated
  statistics, the P-value 0 and the dataset as it was.
\<close>

theorem repetitions_not_positive:
  assumes "difference_of_means_abs df group_label = Inr observed"
  shows "(repetitions = 0 \<longrightarrow>
            repetitions_loop rng group_label (arange repetitions) df [] = Inr ([], df) \<and>
            run_permutation_test rng df group_label repetitions = Inl ZeroDivisionError) \<and>
         (repetitions < 0 \<longrightarrow>
            repetitions_loop rng group_label (arange repetitions) df [] = Inr ([], df) \<and>
            run_permutation_test rng df group_label repetitions = Inr (observed, [], 0, df))"
  using assms by (simp add: run_permutation_test_def arange_def empirical_P_def)

theorem repetitions_not_positive_witness:
  "difference_of_means_abs four_patients ''Group'' = Inr 1 \<and>
   run_permutation_test (\<lambda>i. [0, 2, 1, 3]) four_patients ''Group'' 0 = Inl ZeroDivisionError \<and>
   run_permutation_test (\<lambda>i. [0, 2, 1, 3]) four_patients ''Group'' (- 1) = Inr (1, [], 0, four_patients)"
proof -
  have o: "difference_of_means_abs four_patients ''Group'' = Inr 1" by code_simp
  from repetitions_not_positive [OF o, of 0 "\<lambda>i. [0, 2, 1, 3]"]
    repetitions_not_positive [OF o, of "- 1" "\<lambda>i. [0, 2, 1, 3]"] o
  show ?thesis by simp
qed

text \<open>
  C5, as stated: \<open>difference_of_means_abs\<close> fails when the label column holds more
  than two distinct values. On a table with the three labels A, B and C it returns 1,
  the distance between the means of the groups A and B.
\<close>

theorem third_label_counterexample:
  "card (set [Str ''A'', Str ''B'', Str ''C'']) = 3 \<and>
   getitem three_labels ''Group'' = Inr [Str ''A'', Str ''B'', Str ''C''] \<and>
   difference_of_means_abs three_labels ''Group'' = Inr 1"
  by code_simp

text \<open>
  C5, amended. When the label column holds fewer than two distinct values, which
  includes the table without rows, \<open>difference_of_means_abs\<close> fails with IndexError.
  When it holds two or more, and the table has a numeric column beside it, the call
  returns the distance between the means, in the first such column, of the two groups
  whose labels come first in sorted order; further groups are ignored.
\<close>

theorem fails_below_two_labels_only:
  assumes "getitem df group_label = Inr labels"
  shows "(card (set labels) < 2 \<longrightarrow> difference_of_means_abs df group_label = Inl IndexError) \<and>
         (2 \<le> card (set labels) \<longrightarrow>
            (\<forall>c vs rest. filter (\<lambda>(c, vs). c \<noteq> group_label \<and> is_numeric vs) df = (c, vs) # rest \<longrightarrow>
               difference_of_means_abs df group_label =
                 Inr \<bar>group_mean (sorted_list_of_set (set labels) ! 0) labels vs
                      - group_mean (sorted_list_of_set (set labels) ! 1) labels vs\<bar>))"
proof -
  from assms have l: "map_of df group_label = Some labels"
    by (auto simp: getitem_def split: option.splits)
  show ?thesis
    using difference_of_means_abs_few [OF l] difference_of_means_abs_Inr [OF l]
    by blast
qed

theorem fails_below_two_labels_only_witness:
  "getitem one_label ''Group'' = Inr [Str ''A'', Str ''A''] \<and>
   card (set [Str ''A'', Str ''A'']) < 2 \<and>
   difference_of_means_abs one_label ''Group'' = Inl IndexError \<and>
   getitem three_labels ''Group'' = Inr [Str ''A'', Str ''B'', Str ''C''] \<and>
   2 \<le> card (set [Str ''A'', Str ''B'', Str ''C'']) \<and>
   filter (\<lambda>(c, vs). c \<noteq> ''Group'' \<and> is_numeric vs) three_labels = (''Result'', [Num 1, Num 0, Num 0]) # [] \<and>
   difference_of_means_abs three_labels ''Group'' =
     Inr \<bar>group_mean (sorted_list_of_set (set [Str ''A'', Str ''B'', Str ''C'']) ! 0) [Str ''A'', Str ''B'', Str ''C''] [Num 1, Num 0, Num 0]
          - group_mean (sorted_list_of_set (set [Str ''A'', Str ''B'', Str ''C'']) ! 1) [Str ''A'', Str ''B'', Str ''C''] [Num 1, Num 0, Num 0]\<bar>"
proof -
  have a: "getitem one_label ''Group'' = Inr [Str ''A'', Str ''A'']" by code_simp
  have b: "card (set [Str ''A'', Str ''A'']) < 2" by code_simp
  have c: "getitem three_labels ''Group'' = Inr [Str ''A'', Str ''B'', Str ''C'']" by code_simp
  have d: "2 \<le> card (set [Str ''A'', Str ''B'', Str ''C''])" by code_simp
  have e: "filter (\<lambda>(c, vs). c \<noteq> ''Group'' \<and> is_numeric vs) three_labels = (''Result'', [Num 1, Num 0, Num 0]) # []"
    by code_simp
  from fails_below_two_labels_only [OF a] fails_below_two_labels_only [OF c] a b c d e
  show ?thesis by blast
qed

text \<open>
  C6. For a valid dataset and a positive number of repetitions, with every draw a
  rearrangement of the row positions, the run returns, and the list of simulated
  statistics it returns has exactly as many elements as there are repetitions, each of
  them non-negative.
\<close>

theorem null_distribution_size_and_sign:
  assumes "valid_dataset group_label df" and "0 < repetitions"
    and "\<forall>i \<in> set (arange repetitions). is_permutation (rng i) (shape0 df)"
  shows "\<exists>observed differences p df'.
           run_permutation_test rng df group_label repetitions = Inr (observed, differences, p, df') \<and>
           int (length differences) = repetitions \<and> (\<forall>d \<in> set differences. 0 \<le> d)"
proof -
  from assms(2) have "repetitions \<noteq> 0" by simp
  from run_valid [OF assms(1) this assms(3)] obtain obs ds df'
    where "length ds = nat repetitions" and "\<forall>d \<in> set ds. 0 \<le> d"
      and "run_permutation_test rng df group_label repetitions =
             Inr (obs, ds, real (length (filter (\<lambda>d. d \<le> obs) ds)) / real_of_int repetitions, df')"
    by blast
  with assms(2) show ?thesis by auto
qed

theorem null_distribution_size_and_sign_witness:
  "valid_dataset ''Group'' four_patients \<and> (0::int) < 2 \<and>
   is_permutation [0, 2, 1, 3] (shape0 four_patients) \<and>
   (\<exists>observed differences p df'.
      run_permutation_test (\<lambda>i. [0, 2, 1, 3]) four_patients ''Group'' 2 = Inr (observed, differences, p, df') \<and>
      int (length differences) = 2 \<and> (\<forall>d \<in> set differences. 0 \<le> d))"
proof -
  have v: "valid_dataset ''Group'' four_patients" by code_simp
  have r: "(0::int) < 2" by simp
  have q: "is_permutation [0, 2, 1, 3] (shape0 four_patients)" by code_simp
  then have p: "\<forall>i \<in> set (arange 2). is_permutation [0, 2, 1, 3] (shape0 four_patients)" by simp
  from null_distribution_size_and_sign [of "''Group''" four_patients 2 "\<lambda>i. [0, 2, 1, 3]", OF v r p] v r q
  show ?thesis by blast
qed

text \<open>
  C7. On the table with the outcomes 1, 1, 1, 0, 0 in group A and one 1 followed by
  fifteen 0 in group B, the group means are 0.6 and 0.0625 and the statistic is
  0.5375.
\<close>

theorem scenario_5_16_statistic:
  "mean_at scenario_5_16 ''Group'' 0 = Inr 0.6 \<and>
   mean_at scenario_5_16 ''Group'' 1 = Inr 0.0625 \<and>
   difference_of_means_abs scenario_5_16 ''Group'' = Inr 0.5375"
  by code_simp

text \<open>
  C8. On a dataset with exactly two groups, \<open>a\<close> and \<open>b\<close>, and a numeric column
  beside the label column, \<open>difference_of_means_abs\<close> returns a statistic, and it
  returns the same statistic after the two labels are exchanged in the label column.
\<close>

theorem statistic_symmetric_under_swap:
  assumes "getitem df group_label = Inr labels" and "set labels = {a, b}" and "a \<noteq> b"
    and "\<exists>(c, vs) \<in> set df. c \<noteq> group_label \<and> is_numeric vs"
  shows "\<exists>v. difference_of_means_abs df group_label = Inr v \<and>
           difference_of_means_abs (setitem df group_label (map (swap_labels a b) labels)) group_label
             = Inr v"
proof -
  let ?labels' = "map (swap_labels a b) labels"
  let ?df' = "setitem df group_label ?labels'"
  let ?numeric = "\<lambda>(c, vs). c \<noteq> group_label \<and> is_numeric vs"
  from assms(1) have l: "map_of df group_label = Some labels"
    by (auto simp: getitem_def split: option.splits)
  have l': "map_of ?df' group_label = Some ?labels'"
    by (simp add: map_of_setitem)
  have "?numeric = (\<lambda>p. fst p \<noteq> group_label \<and> is_numeric (snd p))"
    by (simp add: fun_eq_iff)
  then have f: "filter ?numeric ?df' = filter ?numeric df"
    by (simp add: filter_setitem)
  have s: "set ?labels' = {a, b}"
    using assms(2) by (auto simp: swap_labels_def)
  from assms(2,3) have c: "2 \<le> card (set labels)" by simp
  from s assms(3) have c': "2 \<le> card (set ?labels')" by simp
  from assms(4) obtain c0 vs0 where "(c0, vs0) \<in> set df" and "?numeric (c0, vs0)"
    by auto
  then have "\<exists>y rest. filter ?numeric df = y # rest"
    by (rule filter_nonempty_head)
  then obtain c vs rest where fd: "filter ?numeric df = (c, vs) # rest"
    by (metis surj_pair)
  with f have fd': "filter ?numeric ?df' = (c, vs) # rest" by simp
  have m: "\<And>k. group_mean (swap_labels a b k) ?labels' vs = group_mean k labels vs"
    by (rule group_mean_inj) (rule inj_swap_labels)
  have sa: "swap_labels a b a = b" and sb: "swap_labels a b b = a"
    by (simp_all add: swap_labels_def)
  have ma: "group_mean b ?labels' vs = group_mean a labels vs"
    using m [of a] by (simp only: sa)
  have mb: "group_mean a ?labels' vs = group_mean b labels vs"
    using m [of b] by (simp only: sb)
  let ?v = "\<bar>group_mean (sorted_list_of_set {a, b} ! 0) labels vs
             - group_mean (sorted_list_of_set {a, b} ! 1) labels vs\<bar>"
  have orig: "difference_of_means_abs df group_label = Inr ?v"
    using difference_of_means_abs_Inr [OF l c fd] assms(2) by simp
  have "difference_of_means_abs ?df' group_label =
          Inr \<bar>group_mean (sorted_list_of_set {a, b} ! 0) ?labels' vs
               - group_mean (sorted_list_of_set {a, b} ! 1) ?labels' vs\<bar>"
    using difference_of_means_abs_Inr [OF l' c' fd'] s by simp
  also have "\<dots> = Inr ?v"
    using ma mb by (simp add: two_keys [OF assms(3)] abs_minus_commute)
  finally have swapped: "difference_of_means_abs ?df' group_label = Inr ?v" .
  from orig swapped show ?thesis by blast
qed

theorem statistic_symmetric_under_swap_witness:
  "getitem scenario_5_16 ''Group'' = Inr (replicate 5 (Str ''A'') @ replicate 16 (Str ''B'')) \<and>
   set (replicate 5 (Str ''A'') @ replicate 16 (Str ''B'')) = {Str ''A'', Str ''B''} \<and>
   Str ''A'' \<noteq> Str ''B'' \<and>
   (\<exists>(c, vs) \<in> set scenario_5_16. c \<noteq> ''Group'' \<and> is_numeric vs) \<and>
   difference_of_means_abs scenario_5_16 ''Group'' = Inr 0.5375 \<and>
   difference_of_means_abs
     (setitem scenario_5_16 ''Group''
        (map (swap_labels (Str ''A'') (Str ''B'')) (replicate 5 (Str ''A'') @ replicate 16 (Str ''B''))))
     ''Group''
   = Inr 0.5375"
proof -
  have g: "getitem scenario_5_16 ''Group'' = Inr (replicate 5 (Str ''A'') @ replicate 16 (Str ''B''))"
    by (simp add: getitem_def scenario_5_16_def)
  have s: "set (replicate 5 (Str ''A'') @ replicate 16 (Str ''B'')) = {Str ''A'', Str ''B''}"
    by auto
  have n: "Str ''A'' \<noteq> Str ''B''" by simp
  have q: "\<exists>(c, vs) \<in> set scenario_5_16. c \<noteq> ''Group'' \<and> is_numeric vs" by code_simp
  have o: "difference_of_means_abs scenario_5_16 ''Group'' = Inr 0.5375" by code_simp
  from statistic_symmetric_under_swap [OF g s n q] o
  have "difference_of_means_abs
     (setitem scenario_5_16 ''Group''
        (map (swap_labels (Str ''A'') (Str ''B'')) (replicate 5 (Str ''A'') @ replicate 16 (Str ''B''))))
     ''Group''
   = Inr 0.5375"
    by auto
  with g s n q o show ?thesis by (intro conjI)
qed

text \<open>
  C9. For a valid dataset and a positive number of repetitions, with every draw a
  rearrangement of the row positions, the run returns and its P-value lies between 0 and
  1, both included.
\<close>

theorem p_value_in_unit_interval:
  assumes "valid_dataset group_label df" and "0 < repetitions"
    and "\<forall>i \<in> set (arange repetitions). is_permutation (rng i) (shape0 df)"
  shows "\<exists>observed differences p df'.
           run_permutation_test rng df group_label repetitions = Inr (observed, differences, p, df') \<and>
           0 \<le> p \<and> p \<le> 1"
proof -
  from assms(2) have "repetitions \<noteq> 0" by simp
  from run_valid [OF assms(1) this assms(3)] obtain obs ds df'
    where len: "length ds = nat repetitions"
      and run: "run_permutation_test rng df group_label repetitions =
             Inr (obs, ds, real (length (filter (\<lambda>d. d \<le> obs) ds)) / real_of_int repetitions, df')"
    by blast
  let ?k = "length (filter (\<lambda>d. d \<le> obs) ds)"
  have "?k \<le> length ds" by (rule length_filter_le)
  with len assms(2) have k: "real ?k \<le> real_of_int repetitions" by linarith
  from assms(2) have pos: "0 < real_of_int repetitions" by simp
  have "0 \<le> real ?k / real_of_int repetitions"
    using pos by simp
  moreover have "real ?k / real_of_int repetitions \<le> 1"
    using pos k by (simp add: divide_le_eq)
  ultimately show ?thesis using run by blast
qed

theorem p_value_in_unit_interval_witness:
  "valid_dataset ''Group'' four_patients \<and> (0::int) < 2 \<and>
   is_permutation [0, 2, 1, 3] (shape0 four_patients) \<and>
   (\<exists>observed differences p df'.
      run_permutation_test (\<lambda>i. [0, 2, 1, 3]) four_patients ''Group'' 2 = Inr (observed, differences, p, df') \<and>
      0 \<le> p \<and> p \<le> 1)"
proof -
  have v: "valid_dataset ''Group'' four_patients" by code_simp
  have r: "(0::int) < 2" by simp
  have q: "is_permutation [0, 2, 1, 3] (shape0 four_patients)" by code_simp
  then have p: "\<forall>i \<in> set (arange 2). is_permutation [0, 2, 1, 3] (shape0 four_patients)" by simp
  from p_value_in_unit_interval [of "''Group''" four_patients 2 "\<lambda>i. [0, 2, 1, 3]", OF v r p] v r q
  show ?thesis by blast
qed

text \<open>
  C10. When every number of the dataset outside the label column is 0 or 1, the
  observed statistic and every simulated statistic are at most 1, and they are
  non-negative, so that each lies between 0 and 1. The statement is about the values a
  run computes, for any number of repetitions; when that number is not zero the run
  returns them.
\<close>

theorem statistics_in_unit_interval:
  assumes "valid_dataset group_label df" and "binary_outcomes group_label df"
    and "\<forall>i \<in> set (arange repetitions). is_permutation (rng i) (shape0 df)"
  shows "\<exists>observed differences df'.
           difference_of_means_abs df group_label = Inr observed \<and>
           repetitions_loop rng group_label (arange repetitions) df [] = Inr (differences, df') \<and>
           0 \<le> observed \<and> observed \<le> 1 \<and> (\<forall>d \<in> set differences. 0 \<le> d \<and> d \<le> 1) \<and>
           (repetitions \<noteq> 0 \<longrightarrow>
              (\<exists>p. run_permutation_test rng df group_label repetitions = Inr (observed, differences, p, df')))"
proof -
  from observed_of_valid [OF assms(1)] obtain obs
    where o: "difference_of_means_abs df group_label = Inr obs" and nn: "0 \<le> obs" by blast
  from o assms(2) have le: "obs \<le> 1"
    unfolding binary_outcomes_def by (rule difference_of_means_abs_le_1)
  from assms(2) have b: "binary_beside group_label df" by (rule binary_outcomes_beside)
  from repetitions_loop_valid [OF assms(1) assms(3), of "[]"] b obtain ds df'
    where loop: "repetitions_loop rng group_label (arange repetitions) df [] = Inr (ds, df')"
      and bounds: "\<forall>d \<in> set ds. 0 \<le> d \<and> d \<le> 1"
    by auto
  have "repetitions \<noteq> 0 \<longrightarrow>
          (\<exists>p. run_permutation_test rng df group_label repetitions = Inr (obs, ds, p, df'))"
    using o loop by (simp add: run_permutation_test_def empirical_P_def)
  with o loop nn le bounds show ?thesis by (intro exI conjI)
qed

theorem statistics_in_unit_interval_witness:
  "valid_dataset ''Group'' four_patients \<and> binary_outcomes ''Group'' four_patients \<and>
   is_permutation [0, 2, 1, 3] (shape0 four_patients) \<and>
   (\<exists>observed differences df'.
      difference_of_means_abs four_patients ''Group'' = Inr observed \<and>
      repetitions_loop (\<lambda>i. [0, 2, 1, 3]) ''Group'' (arange 3) four_patients [] = Inr (differences, df') \<and>
      0 \<le> observed \<and> observed \<le> 1 \<and> (\<forall>d \<in> set differences. 0 \<le> d \<and> d \<le> 1) \<and>
      ((3::int) \<noteq> 0 \<longrightarrow>
         (\<exists>p. run_permutation_test (\<lambda>i. [0, 2, 1, 3]) four_patients ''Group'' 3 = Inr (observed, differences, p, df'))))"
proof -
  have v: "valid_dataset ''Group'' four_patients" by code_simp
  have b: "binary_outcomes ''Group'' four_patients" by code_simp
  have q: "is_permutation [0, 2, 1, 3] (shape0 four_patients)" by code_simp
  then have p: "\<forall>i \<in> set (arange 3). is_permutation [0, 2, 1, 3] (shape0 four_patients)" by simp
  from statistics_in_unit_interval [of "''Group''" four_patients 3 "\<lambda>i. [0, 2, 1, 3]", OF v b p] v b q
  show ?thesis by blast
qed

end
